theory Spec2Isabelle
  imports Main "HOL-Library.Word" "HOL-Library.Sublist"
begin

section \<open>Data model of \<open>src/lib/global-id.ts\<close>\<close>

text \<open>
  JavaScript values as far as the library looks at them: the payload of a
  \<open>GlobalId\<close>, what a parser returns, and what the binary codec hands back. Numbers
  are the integer-valued ones and \<open>NaN\<close>. A string is the sequence of its UTF-8
  bytes, which is what the codec writes; the characters the library itself
  inspects (\<open>_\<close>, \<open>-\<close>, \<open>+\<close>, \<open>/\<close>, \<open>=\<close>) are ASCII.
\<close>

datatype jsval =
    JUndefined
  | JNull
  | JBool bool
  | JNum int
  | JNaN
  | JStr string
  | JArr "jsval list"
  | JObj "(string \<times> jsval) list"

text \<open>The test \<open>if (x)\<close> of JavaScript (\<open>ToBoolean\<close>); \<open>!x\<close> is its negation.\<close>

fun truthy :: "jsval \<Rightarrow> bool" where
  "truthy JUndefined = False"
| "truthy JNull = False"
| "truthy (JBool b) = b"
| "truthy (JNum n) = (n \<noteq> 0)"
| "truthy JNaN = False"
| "truthy (JStr s) = (s \<noteq> [])"
| "truthy (JArr xs) = True"
| "truthy (JObj kvs) = True"

text \<open>
  The source throws plain \<open>Error\<close> objects that differ in their message only. Each
  throw site is tagged here with the kind the specification gives it:
  \<^item> \<open>DuplicateRegistration\<close>: "Type or prefix is already registered."
  \<^item> \<open>UnknownType\<close>: "Type ... is not registered in the TypeRegistry." (registerParser)
    and "No parsers registered for type ..." (getParser)
  \<^item> \<open>UnknownVersion\<close>: "No parser registered for type ... and version ..."
  \<^item> \<open>UnregisteredType\<close>: "Type ... is not registered." (encode) and
    "Prefix ... is not registered in the TypeRegistry." (decode)
  \<^item> \<open>NullValue\<close>: "Value is not defined."
  \<^item> \<open>MalformedPayload\<close>: an exception that the library does not throw itself but
    that escapes while the payload is taken apart: the \<open>TypeError\<close> of calling
    \<open>replace\<close> on an absent payload, and the \<open>TypeError\<close> of destructuring a
    value that is not iterable
  \<^item> \<open>TypeError\<close>: the \<open>TypeError\<close> of calling \<open>get\<close> or \<open>set\<close> on a member inherited
    from \<open>Object.prototype\<close> that a dictionary lookup returned in place of a \<open>Map\<close>
  \<^item> \<open>ParserFailure\<close>: an exception thrown by the caller's \<open>format\<close> or \<open>parse\<close>
  \<^item> \<open>BeyondCodecModel\<close>: not an outcome of the program. The bytes or the value handed
    to the external binary codec lie outside the part of it that is modelled below,
    and the model does not say what the program does with them
\<close>

datatype error =
    DuplicateRegistration
  | UnknownType
  | UnknownVersion
  | UnregisteredType
  | NullValue
  | MalformedPayload
  | TypeError
  | ParserFailure
  | BeyondCodecModel

text \<open>\<open>class GlobalId<T>\<close>: three read-only fields behind three getters.\<close>

record GlobalId =
  id_type :: string
  id_version :: string
  id_value :: jsval

text \<open>
  \<open>interface IParser<T>\<close>. The declared types are not checked when the program
  runs: \<open>format\<close> returns whatever the parser's author returns, and \<open>parse\<close>
  receives whatever the decoded envelope held. \<open>None\<close> stands for a thrown
  exception.
\<close>

record IParser =
  parse :: "jsval \<Rightarrow> jsval option"
  format :: "jsval \<Rightarrow> jsval option"

text \<open>\<open>class StringParser\<close>: both methods return their argument.\<close>

definition StringParser :: IParser where
  "StringParser = \<lparr> parse = (\<lambda>v. Some v), format = (\<lambda>v. Some v) \<rparr>"

section \<open>Plain objects as dictionaries\<close>

text \<open>
  The registries keep their entries in objects created by \<open>{}\<close>. Such an object
  inherits the members of \<open>Object.prototype\<close>, so a lookup \<open>obj[key]\<close> finds a member
  under each of the twelve names below even when nothing was stored. All of them
  are functions, except \<open>__proto__\<close>, whose getter returns \<open>Object.prototype\<close> itself.

  An inherited member reaches the library in two ways only: as a condition, where
  it is truthy, and as a string (a dictionary key, a template literal), where it is
  converted. It is therefore represented by the string it converts to, which is not
  empty: \<open>[object Object]\<close> for \<open>Object.prototype\<close>, and the source text that Node
  prints for a built-in function.
\<close>

definition objectPrototypeKeys :: "string list" where
  "objectPrototypeKeys =
     [''constructor'', ''__defineGetter__'', ''__defineSetter__'', ''hasOwnProperty'',
      ''__lookupGetter__'', ''__lookupSetter__'', ''isPrototypeOf'', ''propertyIsEnumerable'',
      ''toString'', ''valueOf'', ''__proto__'', ''toLocaleString'']"

definition memberString :: "string \<Rightarrow> string" where
  "memberString k =
     (if k = ''__proto__'' then ''[object Object]''
      else if k = ''constructor'' then ''function Object() { [native code] }''
      else ''function '' @ k @ ''() { [native code] }'')"

definition objectPrototype :: "string \<rightharpoonup> string" where
  "objectPrototype k = (if k \<in> set objectPrototypeKeys then Some (memberString k) else None)"

text \<open>
  \<open>obj[key]\<close> on a dictionary of strings: an own property hides an inherited one,
  except under \<open>__proto__\<close>, which is always answered by the getter.
\<close>

definition record_get :: "(string \<rightharpoonup> string) \<Rightarrow> string \<Rightarrow> string option" where
  "record_get own k =
     (if k = ''__proto__'' then objectPrototype k
      else case own k of Some v \<Rightarrow> Some v | None \<Rightarrow> objectPrototype k)"

text \<open>
  \<open>obj[key] = value\<close> for a string value: an own property is created or replaced,
  except under \<open>__proto__\<close>, whose setter ignores a value that is not an object.
\<close>

definition record_set :: "(string \<rightharpoonup> string) \<Rightarrow> string \<Rightarrow> string \<Rightarrow> (string \<rightharpoonup> string)" where
  "record_set own k v = (if k = ''__proto__'' then own else own(k \<mapsto> v))"

section \<open>TypeRegistry\<close>

text \<open>
  Two plain objects used as dictionaries from string to string. The record holds
  their own properties; \<open>getPrefix\<close> and \<open>getType\<close> read them as \<open>obj[key]\<close> does.
\<close>

record TypeRegistry =
  typeMap :: "string \<rightharpoonup> string"
  prefixMap :: "string \<rightharpoonup> string"

definition newTypeRegistry :: TypeRegistry where
  "newTypeRegistry = \<lparr> typeMap = Map.empty, prefixMap = Map.empty \<rparr>"

text \<open>
  A dictionary lookup used as a condition: absent (\<open>undefined\<close>) is falsy, and so is
  a stored empty string; an inherited member is truthy.
\<close>

definition lookup_truthy :: "(string \<rightharpoonup> string) \<Rightarrow> string \<Rightarrow> bool" where
  "lookup_truthy m k = (case record_get m k of None \<Rightarrow> False | Some s \<Rightarrow> truthy (JStr s))"

definition getPrefix :: "TypeRegistry \<Rightarrow> string \<Rightarrow> string option" where
  "getPrefix r t = record_get (typeMap r) t"

definition getType :: "TypeRegistry \<Rightarrow> string \<Rightarrow> string option" where
  "getType r p = record_get (prefixMap r) p"

definition registerType :: "TypeRegistry \<Rightarrow> string \<Rightarrow> string \<Rightarrow> error + TypeRegistry" where
  "registerType r t p =
     (if lookup_truthy (typeMap r) t \<or> lookup_truthy (prefixMap r) p
      then Inl DuplicateRegistration
      else Inr (r\<lparr> typeMap := record_set (typeMap r) t p,
                    prefixMap := record_set (prefixMap r) p t \<rparr>))"

section \<open>ParserRegistry\<close>

text \<open>
  \<open>parsers\<close> is a plain object used as a dictionary from the first argument of
  \<open>registerParser\<close> to a \<open>Map\<close> from version to parser. The record holds its own
  properties. A lookup \<open>this.parsers[type]\<close> yields nothing, a \<open>Map\<close> stored there,
  or a member inherited from \<open>Object.prototype\<close>; the \<open>Map\<close> and the member are both
  truthy. The registry keeps a reference to the \<open>TypeRegistry\<close> it was constructed
  with; the functions below take that registry as their first argument.
\<close>

record ParserRegistry =
  parsers :: "string \<rightharpoonup> (string \<rightharpoonup> IParser)"

definition newParserRegistry :: ParserRegistry where
  "newParserRegistry = \<lparr> parsers = Map.empty \<rparr>"

datatype parsers_entry =
    NoEntry
  | VersionMap "string \<rightharpoonup> IParser"
  | InheritedMember

definition parsers_get :: "(string \<rightharpoonup> (string \<rightharpoonup> IParser)) \<Rightarrow> string \<Rightarrow> parsers_entry" where
  "parsers_get own k =
     (if k = ''__proto__'' then InheritedMember
      else case own k of
             Some m \<Rightarrow> VersionMap m
           | None \<Rightarrow> if k \<in> set objectPrototypeKeys then InheritedMember else NoEntry)"

text \<open>
  The guard \<open>!this.typeRegistry.getType(type)\<close> is the truthiness test of
  \<open>prefixMap[type]\<close>. Where \<open>this.parsers[type]\<close> is an inherited member, no \<open>Map\<close> is
  created and the call of \<open>set\<close> on the member raises a \<open>TypeError\<close>. The assignment
  \<open>this.parsers[type] = new Map()\<close> happens only where the lookup found nothing, so
  its key is not \<open>__proto__\<close> and an own property is created.
\<close>

definition registerParser ::
  "TypeRegistry \<Rightarrow> ParserRegistry \<Rightarrow> string \<Rightarrow> string \<Rightarrow> IParser \<Rightarrow> error + ParserRegistry" where
  "registerParser tr pr t v p =
     (if \<not> lookup_truthy (prefixMap tr) t then Inl UnknownType
      else
        (case parsers_get (parsers pr) t of
           InheritedMember \<Rightarrow> Inl TypeError
         | NoEntry \<Rightarrow> Inr (pr\<lparr> parsers := (parsers pr)(t \<mapsto> Map.empty(v \<mapsto> p)) \<rparr>)
         | VersionMap m \<Rightarrow> Inr (pr\<lparr> parsers := (parsers pr)(t \<mapsto> m(v \<mapsto> p)) \<rparr>)))"

text \<open>
  \<open>Map.get\<close> compares keys without conversion, so a version that is not a string
  (the decoder can pass one) finds nothing among the registered string keys. A
  parser is an object, hence truthy, so \<open>!parser\<close> holds exactly when the \<open>Map\<close> has
  no entry. Where \<open>this.parsers[type]\<close> is an inherited member, the call of \<open>get\<close> on
  it raises a \<open>TypeError\<close>.
\<close>

definition getParser :: "ParserRegistry \<Rightarrow> string \<Rightarrow> jsval \<Rightarrow> error + IParser" where
  "getParser pr t v =
     (case parsers_get (parsers pr) t of
        NoEntry \<Rightarrow> Inl UnknownType
      | InheritedMember \<Rightarrow> Inl TypeError
      | VersionMap versionedParsers \<Rightarrow>
          (case v of
             JStr s \<Rightarrow>
               (case versionedParsers s of
                  None \<Rightarrow> Inl UnknownVersion
                | Some parser \<Rightarrow> Inr parser)
           | _ \<Rightarrow> Inl UnknownVersion))"

section \<open>Base64 (\<open>Buffer.toString('base64')\<close>, \<open>Buffer.from(s, 'base64')\<close>)\<close>

text \<open>
  The runtime's base64 routines are not part of the repository. They are modelled
  from RFC 4648 (encoding) and from the documented leniency of Node's decoder:
  characters outside the alphabet are skipped, the URL-safe \<open>-\<close> and \<open>_\<close> are read
  as 62 and 63, decoding stops at the first \<open>=\<close>, and an incomplete final group
  yields the bytes that are complete. The decoder never throws.
\<close>

type_synonym byte = "8 word"

definition b64chars :: string where
  "b64chars = ''ABCDEFGHIJKLMNOPQRSTUVWXYZabcdefghijklmnopqrstuvwxyz0123456789+/''"

definition b64char :: "nat \<Rightarrow> char" where
  "b64char n = b64chars ! (n mod 64)"

fun sextets_of :: "byte list \<Rightarrow> nat list" where
  "sextets_of (a # b # c # rest) =
     (let n = unat a * 65536 + unat b * 256 + unat c
      in n div 262144 # n div 4096 mod 64 # n div 64 mod 64 # n mod 64 # sextets_of rest)"
| "sextets_of [a, b] =
     (let n = unat a * 256 + unat b
      in [n div 1024, n div 16 mod 64, n mod 16 * 4])"
| "sextets_of [a] = [unat a div 4, unat a mod 4 * 16]"
| "sextets_of [] = []"

definition toBase64 :: "byte list \<Rightarrow> string" where
  "toBase64 buffer =
     map b64char (sextets_of buffer) @ replicate ((3 - length buffer mod 3) mod 3) (CHR ''='')"

fun find_index_from :: "nat \<Rightarrow> char \<Rightarrow> string \<Rightarrow> nat option" where
  "find_index_from i c [] = None"
| "find_index_from i c (x # xs) = (if x = c then Some i else find_index_from (Suc i) c xs)"

definition unbase64 :: "char \<Rightarrow> nat option" where
  "unbase64 c =
     (if c = CHR ''-'' then Some 62
      else if c = CHR ''_'' then Some 63
      else find_index_from 0 c b64chars)"

fun sextets_in :: "string \<Rightarrow> nat list" where
  "sextets_in [] = []"
| "sextets_in (c # cs) =
     (if c = CHR ''='' then []
      else case unbase64 c of None \<Rightarrow> sextets_in cs | Some n \<Rightarrow> n # sextets_in cs)"

fun bytes_of :: "nat list \<Rightarrow> byte list" where
  "bytes_of (a # b # c # d # rest) =
     (let n = a * 262144 + b * 4096 + c * 64 + d
      in of_nat (n div 65536) # of_nat (n div 256 mod 256) # of_nat (n mod 256) # bytes_of rest)"
| "bytes_of [a, b, c] =
     (let n = a * 4096 + b * 64 + c
      in [of_nat (n div 1024), of_nat (n div 4 mod 256)])"
| "bytes_of [a, b] = [of_nat ((a * 64 + b) div 16)]"
| "bytes_of [a] = []"
| "bytes_of [] = []"

definition fromBase64 :: "string \<Rightarrow> byte list" where
  "fromBase64 s = bytes_of (sextets_in s)"

section \<open>Binary codec (\<open>cborEncode\<close>, \<open>cborDecode\<close> of package cbor-x)\<close>

text \<open>
  The codec is an external package. It is modelled from RFC 8949 for the part of
  the format that the envelope uses: an item starts with a head (major type in
  the top three bits, argument in the low five bits or in the 1, 2 or 4 bytes
  that follow), a text string is major type 3 followed by its UTF-8 bytes, an
  array is major type 4 followed by its items. The encoder writes the shortest
  head and, like the package's 32-bit write, the length modulo \<open>2 ^ 32\<close>.

  The model is partial on purpose. Where it gives a result, that result is what
  the format prescribes; where it gives \<open>None\<close>, it says nothing: the package may
  throw there, or return a value that the model does not cover.
\<close>

definition cbor_head :: "nat \<Rightarrow> nat \<Rightarrow> byte list" where
  "cbor_head major n =
     (if n < 24 then [of_nat (major * 32 + n)]
      else if n < 256 then [of_nat (major * 32 + 24), of_nat n]
      else if n < 65536 then [of_nat (major * 32 + 25), of_nat (n div 256), of_nat (n mod 256)]
      else [of_nat (major * 32 + 26), of_nat (n div 16777216 mod 256),
            of_nat (n div 65536 mod 256), of_nat (n div 256 mod 256), of_nat (n mod 256)])"

definition cbor_text :: "string \<Rightarrow> byte list" where
  "cbor_text s = cbor_head 3 (length s) @ map (\<lambda>c. of_nat (of_char c)) s"

text \<open>\<open>cborEncode\<close> as the encoder calls it: on an array of strings.\<close>

definition cborEncode :: "string list \<Rightarrow> byte list" where
  "cborEncode payload = cbor_head 4 (length payload) @ concat (map cbor_text payload)"

text \<open>
  The decoder of the model reads an integer (major types 0 and 1), a text string,
  and an array of such items, each with an argument of at most four bytes. The
  bytes of a text string are taken as the string. Everything else is \<open>None\<close>: the
  other major types, nested arrays, 8-byte arguments and indefinite lengths, a
  truncated item, and bytes left over after the item.
\<close>

fun read_head :: "byte list \<Rightarrow> (nat \<times> nat \<times> byte list) option" where
  "read_head [] = None"
| "read_head (b # rest) =
     (let major = unat b div 32; info = unat b mod 32
      in if info < 24 then Some (major, info, rest)
         else if info = 24 then
           (case rest of
              x # r \<Rightarrow> Some (major, unat x, r)
            | _ \<Rightarrow> None)
         else if info = 25 then
           (case rest of
              x # y # r \<Rightarrow> Some (major, unat x * 256 + unat y, r)
            | _ \<Rightarrow> None)
         else if info = 26 then
           (case rest of
              x # y # z # w # r \<Rightarrow>
                Some (major, unat x * 16777216 + unat y * 65536 + unat z * 256 + unat w, r)
            | _ \<Rightarrow> None)
         else None)"

definition read_scalar :: "byte list \<Rightarrow> (jsval \<times> byte list) option" where
  "read_scalar bs =
     (case read_head bs of
        None \<Rightarrow> None
      | Some (major, n, rest) \<Rightarrow>
          if major = 0 then Some (JNum (int n), rest)
          else if major = 1 then Some (JNum (- 1 - int n), rest)
          else if major = 3 then
            (if n \<le> length rest
             then Some (JStr (map (\<lambda>b. char_of (unat b)) (take n rest)), drop n rest)
             else None)
          else None)"

fun read_scalars :: "nat \<Rightarrow> byte list \<Rightarrow> (jsval list \<times> byte list) option" where
  "read_scalars n bs =
     (if n = 0 then Some ([], bs)
      else case read_scalar bs of
             None \<Rightarrow> None
           | Some (v, rest) \<Rightarrow>
               (case read_scalars (n - 1) rest of
                  None \<Rightarrow> None
                | Some (vs, rest') \<Rightarrow> Some (v # vs, rest')))"

definition cborDecode :: "byte list \<Rightarrow> jsval option" where
  "cborDecode bs =
     (case read_head bs of
        None \<Rightarrow> None
      | Some (major, n, rest) \<Rightarrow>
          if major = 4 then
            (case read_scalars n rest of
               Some (vs, []) \<Rightarrow> Some (JArr vs)
             | _ \<Rightarrow> None)
          else
            (case read_scalar bs of
               Some (v, []) \<Rightarrow> Some v
             | _ \<Rightarrow> None))"

section \<open>Encoder\<close>

text \<open>\<open>s.replace(/c/g, d)\<close> for a single character \<open>c\<close>.\<close>

definition replace_all :: "char \<Rightarrow> char \<Rightarrow> string \<Rightarrow> string" where
  "replace_all c d s = map (\<lambda>x. if x = c then d else x) s"

text \<open>\<open>s.replace(/=+$/, '')\<close>: the trailing run of \<open>=\<close> is removed.\<close>

definition strip_padding :: "string \<Rightarrow> string" where
  "strip_padding s = rev (dropWhile (\<lambda>c. c = CHR ''='') (rev s))"

text \<open>Lines 120 to 125 of \<open>encode\<close>: base64 made URL-safe, without padding.\<close>

definition base64url :: "byte list \<Rightarrow> string" where
  "base64url compressedPayload =
     (let base64EncodedPayload = toBase64 compressedPayload
      in strip_padding
           (replace_all (CHR ''/'') (CHR ''_'')
             (replace_all (CHR ''+'') (CHR ''-'') base64EncodedPayload)))"

text \<open>
  The envelope \<open>[formattedValue, version]\<close> is serialized where the formatted value is
  a string; any other formatted value is handed to the codec as it is, which the
  model of the codec does not cover. The prefix found by \<open>getPrefix\<close> is used as a
  dictionary key and in the template literal, both as a string.
\<close>

definition encode :: "ParserRegistry \<Rightarrow> TypeRegistry \<Rightarrow> GlobalId \<Rightarrow> error + string" where
  "encode pr tr gid =
     (case getPrefix tr (id_type gid) of
        None \<Rightarrow> Inl UnregisteredType
      | Some typePrefix \<Rightarrow>
          if \<not> truthy (JStr typePrefix) then Inl UnregisteredType
          else if \<not> truthy (id_value gid) then Inl NullValue
          else
            (case getParser pr typePrefix (JStr (id_version gid)) of
               Inl e \<Rightarrow> Inl e
             | Inr parser \<Rightarrow>
                 (case format parser (id_value gid) of
                    None \<Rightarrow> Inl ParserFailure
                  | Some (JStr formattedValue) \<Rightarrow>
                      let payload = [formattedValue, id_version gid];
                          compressedPayload = cborEncode payload
                      in Inr (typePrefix @ ''_'' @ base64url compressedPayload)
                  | Some _ \<Rightarrow> Inl BeyondCodecModel)))"

section \<open>Decoder\<close>

text \<open>
  \<open>indexOf\<close> finds the first separator; without one the result has a single
  element, and the second variable of the caller's destructuring is \<open>undefined\<close>.
\<close>

definition splitByFirstOccurrence :: "string \<Rightarrow> char \<Rightarrow> string list" where
  "splitByFirstOccurrence input separator =
     (case dropWhile (\<lambda>c. c \<noteq> separator) input of
        [] \<Rightarrow> [input]
      | _ # part2 \<Rightarrow> [takeWhile (\<lambda>c. c \<noteq> separator) input, part2])"

text \<open>The loop \<open>while (s.length % 4) s += '='\<close>.\<close>

function pad :: "string \<Rightarrow> string" where
  "pad s = (if length s mod 4 \<noteq> 0 then pad (s @ ''='') else s)"
  by pat_completeness auto
termination
proof (relation "measure (\<lambda>s. (4 - length s mod 4) mod 4)")
  show "wf (measure (\<lambda>s::string. (4 - length s mod 4) mod 4))"
    by simp
next
  fix s :: string
  assume open_group: "length s mod 4 \<noteq> 0"
  have "length s mod 4 < 4"
    by simp
  then consider "length s mod 4 = 1" | "length s mod 4 = 2" | "length s mod 4 = 3"
    using open_group by linarith
  then have "(4 - Suc (length s) mod 4) mod 4 < (4 - length s mod 4) mod 4"
    by cases (simp_all add: mod_Suc)
  then show "(s @ ''='', s) \<in> measure (\<lambda>s. (4 - length s mod 4) mod 4)"
    by simp
qed

declare pad.simps [simp del]

text \<open>
  A string is iterated by code points. In UTF-8 a code point is a byte that is not
  a continuation byte (\<open>10xxxxxx\<close>) together with the continuation bytes after it.
\<close>

definition continuation :: "char \<Rightarrow> bool" where
  "continuation c = (128 \<le> (of_char c :: nat) \<and> (of_char c :: nat) < 192)"

function code_points :: "string \<Rightarrow> string list" where
  "code_points [] = []"
| "code_points (c # cs) = (c # takeWhile continuation cs) # code_points (dropWhile continuation cs)"
  by pat_completeness auto
termination
  by (relation "measure length") (simp_all add: le_imp_less_Suc length_dropWhile_le)

text \<open>
  \<open>const [data, version] = value\<close>: an array gives its first two elements
  (\<open>undefined\<close> where it is shorter), a string gives its first two code points, and
  a value that is not iterable raises a \<open>TypeError\<close> (\<open>None\<close>).
\<close>

definition element_at :: "jsval list \<Rightarrow> nat \<Rightarrow> jsval" where
  "element_at xs i = (if i < length xs then xs ! i else JUndefined)"

definition destructure2 :: "jsval \<Rightarrow> (jsval \<times> jsval) option" where
  "destructure2 v =
     (case v of
        JArr xs \<Rightarrow> Some (element_at xs 0, element_at xs 1)
      | JStr s \<Rightarrow> Some (element_at (map JStr (code_points s)) 0,
                         element_at (map JStr (code_points s)) 1)
      | _ \<Rightarrow> None)"

text \<open>
  Lines 156 to 166 of \<open>decode\<close>: the standard alphabet is restored, the padding
  is put back, and the string is base64-decoded.
\<close>

definition encodedPayloadBuffer :: "string \<Rightarrow> byte list" where
  "encodedPayloadBuffer encodedPayload =
     (let paddedEncodedPayload =
            pad (replace_all (CHR ''_'') (CHR ''/'')
                  (replace_all (CHR ''-'') (CHR ''+'') encodedPayload))
      in fromBase64 paddedEncodedPayload)"

text \<open>
  \<open>getParser\<close> returns a parser for a string version only, so the last
  \<open>case\<close> below has one live branch. Where the bytes of the payload lie outside the
  model of the codec, the model gives no outcome of the program. A type that
  \<open>getType\<close> found as an inherited member is stored in the \<open>GlobalId\<close> as that member;
  the model holds the string it converts to.
\<close>

definition decode :: "ParserRegistry \<Rightarrow> TypeRegistry \<Rightarrow> string \<Rightarrow> error + GlobalId" where
  "decode pr tr encodedId =
     (case splitByFirstOccurrence encodedId (CHR ''_'') of
        [typePrefix, encodedPayload] \<Rightarrow>
          (case cborDecode (encodedPayloadBuffer encodedPayload) of
             None \<Rightarrow> Inl BeyondCodecModel
           | Some envelope \<Rightarrow>
               (case destructure2 envelope of
                  None \<Rightarrow> Inl MalformedPayload
                | Some (data, version) \<Rightarrow>
                    (case getParser pr typePrefix version of
                       Inl e \<Rightarrow> Inl e
                     | Inr parser \<Rightarrow>
                         (case parse parser data of
                            None \<Rightarrow> Inl ParserFailure
                          | Some parsedValue \<Rightarrow>
                              (case getType tr typePrefix of
                                 None \<Rightarrow> Inl UnregisteredType
                               | Some parsedType \<Rightarrow>
                                   if \<not> truthy (JStr parsedType) then Inl UnregisteredType
                                   else
                                     (case version of
                                        JStr v \<Rightarrow>
                                          Inr \<lparr> id_type = parsedType, id_version = v,
                                                id_value = parsedValue \<rparr>
                                      | _ \<Rightarrow> Inl UnknownVersion))))))
      | _ \<Rightarrow> Inl MalformedPayload)"

section \<open>Reachable registries\<close>

text \<open>
  The two registries start empty and change only through \<open>registerType\<close> and
  \<open>registerParser\<close>; a call that throws changes nothing. The parser registry is
  the one constructed over the type registry, as in the repository's tests.
\<close>

inductive reachable :: "TypeRegistry \<Rightarrow> ParserRegistry \<Rightarrow> bool" where
  start: "reachable newTypeRegistry newParserRegistry"
| type_registered:
    "reachable tr pr \<Longrightarrow> registerType tr t p = Inr tr' \<Longrightarrow> reachable tr' pr"
| parser_registered:
    "reachable tr pr \<Longrightarrow> registerParser tr pr t v parser = Inr pr' \<Longrightarrow> reachable tr pr'"

section \<open>Concrete registries\<close>

text \<open>
  The registries that the repository's tests set up: type \<open>Organization\<close> under
  prefix \<open>org\<close>, and one parser under \<open>(org, 1.0.0)\<close>.
\<close>

definition testTypeRegistry :: TypeRegistry where
  "testTypeRegistry =
     \<lparr> typeMap = [''Organization'' \<mapsto> ''org''], prefixMap = [''org'' \<mapsto> ''Organization''] \<rparr>"

definition testParserRegistry :: ParserRegistry where
  "testParserRegistry = \<lparr> parsers = [''org'' \<mapsto> [''1.0.0'' \<mapsto> StringParser]] \<rparr>"

text \<open>
  Registries that the registration calls produce from caller-chosen strings the
  library does not restrict: a prefix that contains the separator, an empty
  prefix, an empty type name, and the state after a second type took over the
  prefix of the type with the empty name.
\<close>

definition underscoreTypeRegistry :: TypeRegistry where
  "underscoreTypeRegistry =
     \<lparr> typeMap = [''Organization'' \<mapsto> ''my_org''], prefixMap = [''my_org'' \<mapsto> ''Organization''] \<rparr>"

definition underscoreParserRegistry :: ParserRegistry where
  "underscoreParserRegistry = \<lparr> parsers = [''my_org'' \<mapsto> [''1.0.0'' \<mapsto> StringParser]] \<rparr>"

definition emptyPrefixTypeRegistry :: TypeRegistry where
  "emptyPrefixTypeRegistry = \<lparr> typeMap = [''T'' \<mapsto> ''''], prefixMap = ['''' \<mapsto> ''T''] \<rparr>"

definition emptyNameTypeRegistry :: TypeRegistry where
  "emptyNameTypeRegistry = \<lparr> typeMap = ['''' \<mapsto> ''p''], prefixMap = [''p'' \<mapsto> ''''] \<rparr>"

definition sharedPrefixTypeRegistry :: TypeRegistry where
  "sharedPrefixTypeRegistry =
     \<lparr> typeMap = ['''' \<mapsto> ''p'', ''B'' \<mapsto> ''p''], prefixMap = [''p'' \<mapsto> ''B''] \<rparr>"

definition emptyPrefixParserRegistry :: ParserRegistry where
  "emptyPrefixParserRegistry = \<lparr> parsers = ['''' \<mapsto> [''1.0.0'' \<mapsto> StringParser]] \<rparr>"

definition sharedPrefixParserRegistry :: ParserRegistry where
  "sharedPrefixParserRegistry = \<lparr> parsers = [''p'' \<mapsto> [''1.0.0'' \<mapsto> StringParser]] \<rparr>"

text \<open>
  The registries after \<open>registerType("Weird", "[object Object]")\<close> and
  \<open>registerParser("[object Object]", "1.0.0", new StringParser())\<close>.
\<close>

definition weirdTypeRegistry :: TypeRegistry where
  "weirdTypeRegistry =
     \<lparr> typeMap = [''Weird'' \<mapsto> ''[object Object]''],
       prefixMap = [''[object Object]'' \<mapsto> ''Weird''] \<rparr>"

definition weirdParserRegistry :: ParserRegistry where
  "weirdParserRegistry = \<lparr> parsers = [''[object Object]'' \<mapsto> [''1.0.0'' \<mapsto> StringParser]] \<rparr>"

text \<open>The parser stored under a pair \<open>(type, version)\<close>, if any.\<close>

definition stored :: "ParserRegistry \<Rightarrow> string \<Rightarrow> string \<Rightarrow> IParser option" where
  "stored pr t v = (case parsers pr t of None \<Rightarrow> None | Some m \<Rightarrow> m v)"

section \<open>Registry lemmas\<close>

lemma objectPrototype_nonempty: "objectPrototype k = Some s \<Longrightarrow> s \<noteq> []"
  by (auto simp: objectPrototype_def memberString_def split: if_splits)

lemma objectPrototype_proto: "objectPrototype ''__proto__'' = Some ''[object Object]''"
  by (simp add: objectPrototype_def objectPrototypeKeys_def memberString_def)

lemma record_get_own:
  "objectPrototype k = None \<Longrightarrow> record_get own k = own k"
  using objectPrototype_proto by (auto simp: record_get_def split: option.splits)

lemma parsers_get_own:
  "objectPrototype k = None \<Longrightarrow>
     parsers_get own k = (case own k of None \<Rightarrow> NoEntry | Some m \<Rightarrow> VersionMap m)"
  using objectPrototype_proto
  by (auto simp: parsers_get_def objectPrototype_def split: option.splits if_splits)

lemma parsers_get_VersionMap:
  "parsers_get own k = VersionMap m \<Longrightarrow> own k = Some m"
  by (auto simp: parsers_get_def split: option.splits if_splits)

lemma parsers_get_NoEntry:
  "parsers_get own k = NoEntry \<Longrightarrow> own k = None \<and> objectPrototype k = None"
  by (auto simp: parsers_get_def objectPrototype_def split: option.splits if_splits)

lemma lookup_falsy:
  assumes "\<not> lookup_truthy m k"
  shows "k \<noteq> ''__proto__''"
    and "m k = Some [] \<or> (m k = None \<and> objectPrototype k = None)"
  using assms objectPrototype_proto objectPrototype_nonempty [of k]
  by (auto simp: lookup_truthy_def record_get_def split: option.splits if_splits)

lemma own_truthy:
  assumes "m k = Some s" and "s \<noteq> []"
  shows "lookup_truthy m k"
  using assms objectPrototype_proto
  by (auto simp: lookup_truthy_def record_get_def split: option.splits)

lemma lookup_truthy_other:
  "k' \<noteq> k \<Longrightarrow> lookup_truthy (m(k \<mapsto> v)) k' = lookup_truthy m k'"
  by (simp add: lookup_truthy_def record_get_def)

lemma registerType_Inr:
  assumes "registerType tr t p = Inr tr'"
  shows "\<not> lookup_truthy (typeMap tr) t" and "\<not> lookup_truthy (prefixMap tr) p"
    and "typeMap tr' = (typeMap tr)(t \<mapsto> p)" and "prefixMap tr' = (prefixMap tr)(p \<mapsto> t)"
proof -
  from assms show falsy: "\<not> lookup_truthy (typeMap tr) t" "\<not> lookup_truthy (prefixMap tr) p"
    by (auto simp: registerType_def split: if_splits)
  then have "t \<noteq> ''__proto__''" and "p \<noteq> ''__proto__''"
    by (auto dest: lookup_falsy(1))
  with assms falsy show "typeMap tr' = (typeMap tr)(t \<mapsto> p)"
    and "prefixMap tr' = (prefixMap tr)(p \<mapsto> t)"
    by (auto simp: registerType_def record_set_def split: if_splits)
qed

lemma registerParser_Inr:
  assumes "registerParser tr pr t v parser = Inr pr'"
  shows "lookup_truthy (prefixMap tr) t"
    and "parsers pr' =
           (parsers pr)(t \<mapsto> (case parsers pr t of None \<Rightarrow> Map.empty | Some m \<Rightarrow> m)(v \<mapsto> parser))"
    and "parsers pr t = None \<Longrightarrow> objectPrototype t = None"
  using assms
  by (auto simp: registerParser_def split: if_splits parsers_entry.splits
      dest: parsers_get_VersionMap parsers_get_NoEntry)

lemma reachable_own_keys:
  "reachable tr pr \<Longrightarrow>
     (\<forall>k v. typeMap tr k = Some v \<longrightarrow> objectPrototype k = None)
     \<and> (\<forall>k v. prefixMap tr k = Some v \<longrightarrow> objectPrototype k = None)
     \<and> (\<forall>k m. parsers pr k = Some m \<longrightarrow> objectPrototype k = None)"
proof (induction rule: reachable.induct)
  case start
  then show ?case by (simp add: newTypeRegistry_def newParserRegistry_def)
next
  case (type_registered tr pr t p tr')
  note reg = registerType_Inr [OF type_registered.hyps(2)]
  from lookup_falsy(2) [OF reg(1)] type_registered.IH have "objectPrototype t = None"
    by blast
  moreover from lookup_falsy(2) [OF reg(2)] type_registered.IH have "objectPrototype p = None"
    by blast
  ultimately show ?case
    using type_registered.IH reg(3,4) by auto
next
  case (parser_registered tr pr t v parser pr')
  note reg = registerParser_Inr [OF parser_registered.hyps(2)]
  have "objectPrototype t = None"
  proof (cases "parsers pr t")
    case None
    then show ?thesis by (rule reg(3))
  next
    case (Some m)
    with parser_registered.IH show ?thesis by blast
  qed
  then show ?case
    using parser_registered.IH reg(2) by auto
qed

lemma reachable_versions_nonempty:
  "reachable tr pr \<Longrightarrow> parsers pr t = Some m \<Longrightarrow> \<exists>v parser. m v = Some parser"
proof (induction arbitrary: t m rule: reachable.induct)
  case start
  then show ?case by (simp add: newParserRegistry_def)
next
  case (type_registered tr pr t' p tr')
  then show ?case by blast
next
  case (parser_registered tr pr t' v parser pr')
  note stored = registerParser_Inr(2) [OF parser_registered.hyps(2)]
  show ?case
  proof (cases "t = t'")
    case True
    with stored parser_registered.prems have "m v = Some parser"
      by auto
    then show ?thesis by blast
  next
    case False
    with stored parser_registered.prems have "parsers pr t = Some m"
      by simp
    then show ?thesis by (rule parser_registered.IH)
  qed
qed

lemma reachable_parsers_known:
  "reachable tr pr \<Longrightarrow> parsers pr p = Some m \<Longrightarrow> lookup_truthy (prefixMap tr) p"
proof (induction arbitrary: p m rule: reachable.induct)
  case start
  then show ?case by (simp add: newParserRegistry_def)
next
  case (type_registered tr pr t' p' tr')
  from type_registered.prems have known: "lookup_truthy (prefixMap tr) p"
    by (rule type_registered.IH)
  note reg = registerType_Inr [OF type_registered.hyps(2)]
  from known reg(2) have "p \<noteq> p'" by auto
  then have "lookup_truthy ((prefixMap tr)(p' \<mapsto> t')) p = lookup_truthy (prefixMap tr) p"
    by (rule lookup_truthy_other)
  with known reg(4) show ?case by (simp only:)
next
  case (parser_registered tr pr t' v parser pr')
  note reg = registerParser_Inr [OF parser_registered.hyps(2)]
  show ?case
  proof (cases "p = t'")
    case True
    with reg(1) show ?thesis by simp
  next
    case False
    with reg(2) parser_registered.prems have "parsers pr p = Some m"
      by simp
    then show ?thesis by (rule parser_registered.IH)
  qed
qed

lemma reachable_prefix_of_type:
  "reachable tr pr \<Longrightarrow> typeMap tr t = Some p \<Longrightarrow> t \<noteq> [] \<Longrightarrow> p \<noteq> [] \<Longrightarrow> prefixMap tr p = Some t"
proof (induction arbitrary: t p rule: reachable.induct)
  case start
  then show ?case by (simp add: newTypeRegistry_def)
next
  case (type_registered tr pr t' p' tr')
  note reg = registerType_Inr [OF type_registered.hyps(2)]
  show ?case
  proof (cases "t = t'")
    case True
    with reg(3) type_registered.prems(1) have "p = p'" by simp
    with True reg(4) show ?thesis by simp
  next
    case False
    with reg(3) type_registered.prems(1) have "typeMap tr t = Some p" by simp
    then have old: "prefixMap tr p = Some t"
      using type_registered.prems(2,3) by (rule type_registered.IH)
    then have "lookup_truthy (prefixMap tr) p"
      using type_registered.prems(2) by (rule own_truthy)
    with reg(2) have "p \<noteq> p'" by auto
    with old reg(4) show ?thesis by simp
  qed
next
  case (parser_registered tr pr t' v parser pr')
  then show ?case by blast
qed

lemma reachable_type_of_prefix:
  "reachable tr pr \<Longrightarrow> prefixMap tr p = Some t \<Longrightarrow> t \<noteq> [] \<Longrightarrow> p \<noteq> [] \<Longrightarrow> typeMap tr t = Some p"
proof (induction arbitrary: t p rule: reachable.induct)
  case start
  then show ?case by (simp add: newTypeRegistry_def)
next
  case (type_registered tr pr t' p' tr')
  note reg = registerType_Inr [OF type_registered.hyps(2)]
  show ?case
  proof (cases "p = p'")
    case True
    with reg(4) type_registered.prems(1) have "t = t'" by simp
    with True reg(3) show ?thesis by simp
  next
    case False
    with reg(4) type_registered.prems(1) have "prefixMap tr p = Some t" by simp
    then have old: "typeMap tr t = Some p"
      using type_registered.prems(2,3) by (rule type_registered.IH)
    then have "lookup_truthy (typeMap tr) t"
      using type_registered.prems(3) by (rule own_truthy)
    with reg(1) have "t \<noteq> t'" by auto
    with old reg(3) show ?thesis by simp
  qed
next
  case (parser_registered tr pr t' v parser pr')
  then show ?case by blast
qed

lemma reachable_getPrefix:
  assumes "reachable tr pr" and "typeMap tr t = Some p"
  shows "getPrefix tr t = Some p"
  using reachable_own_keys [OF assms(1)] assms(2) by (simp add: getPrefix_def record_get_own)

lemma reachable_getType:
  assumes "reachable tr pr" and "prefixMap tr p = Some t"
  shows "getType tr p = Some t"
  using reachable_own_keys [OF assms(1)] assms(2) by (simp add: getType_def record_get_own)

lemma getParser_error_kinds:
  "getParser pr p v = Inl e \<Longrightarrow> e = UnknownType \<or> e = UnknownVersion \<or> e = TypeError"
  by (auto simp: getParser_def split: option.splits jsval.splits parsers_entry.splits)

lemma getParser_Inr_own:
  "getParser pr p v = Inr parser \<Longrightarrow> \<exists>m. parsers pr p = Some m"
  by (auto simp: getParser_def split: parsers_entry.splits dest: parsers_get_VersionMap)

lemma decode_UnregisteredTypeD:
  assumes "decode pr tr s = Inl UnregisteredType"
  obtains p v parser where "getParser pr p v = Inr parser"
    and "getType tr p = None \<or> getType tr p = Some []"
  using assms
  by (auto simp: decode_def
      split: list.splits option.splits sum.splits if_splits jsval.splits prod.splits
      dest: getParser_error_kinds)

section \<open>Base64 round trip\<close>

text \<open>
  Bytes survive \<open>toBase64\<close>, the URL-safe substitution, the removal of the padding,
  the inverse substitution, \<open>pad\<close> and \<open>fromBase64\<close>.
\<close>

lemma sextets_sum3:
  fixes n :: nat
  shows "n div 262144 * 262144 + n div 4096 mod 64 * 4096 + n div 64 mod 64 * 64 + n mod 64 = n"
proof -
  have low: "n mod 4096 = 64 * (n div 64 mod 64) + n mod 64"
    using mod_mult2_eq [of n 64 64] by simp
  have mid: "n mod 262144 = 4096 * (n div 4096 mod 64) + n mod 4096"
    using mod_mult2_eq [of n 4096 64] by simp
  have "n div 262144 * 262144 + n mod 262144 = n"
    by (rule div_mult_mod_eq)
  with low mid show ?thesis
    by simp
qed

lemma bytes_split3:
  fixes a b c :: nat
  assumes "b < 256" "c < 256"
  shows "(a * 65536 + b * 256 + c) div 65536 = a"
    and "(a * 65536 + b * 256 + c) div 256 mod 256 = b"
    and "(a * 65536 + b * 256 + c) mod 256 = c"
proof -
  have shape: "a * 65536 + b * 256 + c = (a * 256 + b) * 256 + c"
    by simp
  from assms show "(a * 65536 + b * 256 + c) div 65536 = a"
    by simp
  from assms have "((a * 256 + b) * 256 + c) div 256 = a * 256 + b"
    by simp
  moreover from assms have "(a * 256 + b) mod 256 = b"
    by simp
  ultimately show "(a * 65536 + b * 256 + c) div 256 mod 256 = b"
    by (simp only: shape)
  have "((a * 256 + b) * 256 + c) mod 256 = c mod 256"
    by (rule mod_mult_self3)
  with assms have "((a * 256 + b) * 256 + c) mod 256 = c"
    by (simp only: mod_less)
  then show "(a * 65536 + b * 256 + c) mod 256 = c"
    by (simp only: shape)
qed

lemma sextets_sum2:
  fixes n :: nat
  shows "n div 1024 * 4096 + n div 16 mod 64 * 64 + n mod 16 * 4 = n * 4"
proof -
  have low: "n mod 1024 = 16 * (n div 16 mod 64) + n mod 16"
    using mod_mult2_eq [of n 16 64] by simp
  have "n div 1024 * 1024 + n mod 1024 = n"
    by (rule div_mult_mod_eq)
  with low have "n div 1024 * 1024 + 16 * (n div 16 mod 64) + n mod 16 = n"
    by simp
  then have "(n div 1024 * 1024 + 16 * (n div 16 mod 64) + n mod 16) * 4 = n * 4"
    by simp
  then show ?thesis
    by (simp add: algebra_simps)
qed

lemma bytes_split2:
  fixes a b :: nat
  assumes "b < 256"
  shows "((a * 256 + b) * 4) div 1024 = a"
    and "((a * 256 + b) * 4) div 4 mod 256 = b"
  using assms by simp_all

lemma sextets_sum1:
  fixes a :: nat
  shows "(a div 4 * 64 + a mod 4 * 16) div 16 = a"
proof -
  have "(x * 4 + y) * 16 = x * 64 + y * 16" for x y :: nat
    by simp
  then have "(a div 4 * 4 + a mod 4) * 16 = a div 4 * 64 + a mod 4 * 16" .
  moreover have "(a div 4 * 4 + a mod 4) * 16 = a * 16"
    by (simp only: div_mult_mod_eq)
  ultimately have "a div 4 * 64 + a mod 4 * 16 = a * 16"
    by (rule trans [OF sym])
  then show ?thesis
    by (simp only:)
qed


lemma unat_byte_less: "unat (a :: byte) < 256"
  using unsigned_less [of a, where 'a = nat] by simp

lemma sextets_of_less: "n \<in> set (sextets_of bs) \<Longrightarrow> n < 64"
proof (induction bs arbitrary: n rule: sextets_of.induct)
  case (1 a b c rest)
  have "unat a < 256" "unat b < 256" "unat c < 256"
    by (rule unat_byte_less)+
  then have "(unat a * 65536 + unat b * 256 + unat c) div 262144 < 64"
    by simp
  with 1 show ?case
    by (auto simp: Let_def)
next
  case (2 a b)
  have "unat a < 256" "unat b < 256"
    by (rule unat_byte_less)+
  then have "(unat a * 256 + unat b) div 1024 < 64"
    by simp
  moreover have "(unat a * 256 + unat b) mod 16 * 4 < 64"
    using mod_less_divisor [of 16 "unat a * 256 + unat b"] by linarith
  ultimately show ?case
    using 2 by (auto simp: Let_def)
next
  case (3 a)
  have "unat a < 256"
    by (rule unat_byte_less)
  then have "unat a div 4 < 64"
    by simp
  moreover have "unat a mod 4 * 16 < 64"
    using mod_less_divisor [of 4 "unat a"] by linarith
  ultimately show ?case
    using 3 by auto
next
  case 4
  then show ?case by simp
qed

lemma bytes_of_sextets_of: "bytes_of (sextets_of bs) = bs"
proof (induction bs rule: sextets_of.induct)
  case (1 a b c rest)
  note split = bytes_split3 [OF unat_byte_less [of b] unat_byte_less [of c], of "unat a"]
  from 1 show ?case
    by (simp only: sextets_of.simps bytes_of.simps Let_def sextets_sum3 split) simp
next
  case (2 a b)
  note split = bytes_split2 [OF unat_byte_less [of b], of "unat a"]
  show ?case
    by (simp only: sextets_of.simps bytes_of.simps Let_def sextets_sum2 split) simp
next
  case (3 a)
  show ?case
    by (simp only: sextets_of.simps bytes_of.simps sextets_sum1) simp
next
  case 4
  show ?case by simp
qed

lemma b64_alphabet_all:
  "list_all (\<lambda>n. unbase64 (b64char n) = Some n \<and> b64char n \<noteq> CHR ''='' \<and> b64char n \<noteq> CHR ''-''
       \<and> b64char n \<noteq> CHR ''_'') [0..<64]"
  by code_simp

lemma b64_alphabet:
  assumes "n < 64"
  shows "unbase64 (b64char n) = Some n" and "b64char n \<noteq> CHR ''=''"
    and "b64char n \<noteq> CHR ''-''" and "b64char n \<noteq> CHR ''_''"
proof -
  from assms have "n \<in> set [0..<64]"
    by simp
  with b64_alphabet_all
  have "unbase64 (b64char n) = Some n \<and> b64char n \<noteq> CHR ''='' \<and> b64char n \<noteq> CHR ''-''
       \<and> b64char n \<noteq> CHR ''_''"
    unfolding list_all_iff by blast
  then show "unbase64 (b64char n) = Some n" and "b64char n \<noteq> CHR ''=''"
    and "b64char n \<noteq> CHR ''-''" and "b64char n \<noteq> CHR ''_''"
    by simp_all
qed


lemma sextets_in_alphabet:
  "\<forall>n \<in> set ns. n < 64 \<Longrightarrow> sextets_in (map b64char ns) = ns"
  by (induction ns) (simp_all add: b64_alphabet)

lemma sextets_in_padding: "sextets_in (s @ replicate k (CHR ''='')) = sextets_in s"
proof (induction s)
  case Nil
  show ?case by (cases k) simp_all
next
  case (Cons c s)
  then show ?case by (simp split: option.splits)
qed

lemma pad_appends_padding: "\<exists>k. pad s = s @ replicate k (CHR ''='')"
proof (induction s rule: pad.induct)
  case (1 s)
  show ?case
  proof (cases "length s mod 4 \<noteq> 0")
    case True
    with 1 obtain k where "pad (s @ ''='') = (s @ ''='') @ replicate k (CHR ''='')"
      by blast
    with True have "pad s = s @ replicate (Suc k) (CHR ''='')"
      by (simp add: pad.simps [of s])
    then show ?thesis by blast
  next
    case False
    then have "pad s = s @ replicate 0 (CHR ''='')"
      by (simp add: pad.simps [of s])
    then show ?thesis by blast
  qed
qed

lemma sextets_in_pad: "sextets_in (pad s) = sextets_in s"
  using pad_appends_padding [of s] sextets_in_padding by auto

lemma strip_padding_body:
  assumes "CHR ''='' \<notin> set xs"
  shows "strip_padding (xs @ replicate k (CHR ''='')) = xs"
proof -
  have "dropWhile (\<lambda>c. c = CHR ''='') (replicate k (CHR ''='') @ rev xs)
      = dropWhile (\<lambda>c. c = CHR ''='') (rev xs)"
    by (simp add: dropWhile_append)
  also from assms have "\<dots> = rev xs"
    by (cases "rev xs") auto
  finally show ?thesis
    by (simp add: strip_padding_def)
qed

lemma sanitize_unsanitize_char:
  assumes "c \<noteq> CHR ''-''" and "c \<noteq> CHR ''_''"
  shows "replace_all (CHR ''_'') (CHR ''/'') (replace_all (CHR ''-'') (CHR ''+'')
           (replace_all (CHR ''/'') (CHR ''_'') (replace_all (CHR ''+'') (CHR ''-'') [c]))) = [c]"
  using assms by (simp add: replace_all_def)

lemma sanitize_unsanitize:
  assumes "CHR ''-'' \<notin> set xs" and "CHR ''_'' \<notin> set xs"
  shows "replace_all (CHR ''_'') (CHR ''/'') (replace_all (CHR ''-'') (CHR ''+'')
           (replace_all (CHR ''/'') (CHR ''_'') (replace_all (CHR ''+'') (CHR ''-'') xs))) = xs"
  using assms by (induction xs) (auto simp: replace_all_def)

lemma sanitize_keeps_no_padding:
  assumes "CHR ''='' \<notin> set xs"
  shows "CHR ''='' \<notin> set (replace_all (CHR ''/'') (CHR ''_'') (replace_all (CHR ''+'') (CHR ''-'') xs))"
  using assms by (induction xs) (auto simp: replace_all_def)

lemma sanitize_padding:
  "replace_all (CHR ''/'') (CHR ''_'') (replace_all (CHR ''+'') (CHR ''-'') (xs @ replicate k (CHR ''='')))
   = replace_all (CHR ''/'') (CHR ''_'') (replace_all (CHR ''+'') (CHR ''-'') xs) @ replicate k (CHR ''='')"
  by (simp add: replace_all_def)

lemma b64_body_chars:
  assumes "\<forall>n \<in> set ns. n < 64"
  shows "CHR ''='' \<notin> set (map b64char ns)" and "CHR ''-'' \<notin> set (map b64char ns)"
    and "CHR ''_'' \<notin> set (map b64char ns)"
  using assms b64_alphabet(2-4) by fastforce+

lemma base64url_round_trip: "encodedPayloadBuffer (base64url bs) = bs"
proof -
  define body where "body = map b64char (sextets_of bs)"
  have small: "\<forall>n \<in> set (sextets_of bs). n < 64"
    using sextets_of_less by blast
  note chars = b64_body_chars [OF small, folded body_def]
  have "base64url bs = replace_all (CHR ''/'') (CHR ''_'') (replace_all (CHR ''+'') (CHR ''-'') body)"
    unfolding base64url_def Let_def toBase64_def body_def [symmetric] sanitize_padding
    by (rule strip_padding_body) (rule sanitize_keeps_no_padding [OF chars(1)])
  then have "encodedPayloadBuffer (base64url bs) = fromBase64 (pad body)"
    by (simp only: encodedPayloadBuffer_def Let_def sanitize_unsanitize [OF chars(2,3)])
  also have "\<dots> = bytes_of (sextets_in body)"
    by (simp only: fromBase64_def sextets_in_pad)
  also have "\<dots> = bs"
    unfolding body_def by (simp only: sextets_in_alphabet [OF small] bytes_of_sextets_of)
  finally show ?thesis .
qed

section \<open>Envelope round trip through the binary codec\<close>

text \<open>
  A sequence of fewer than \<open>2 ^ 32\<close> strings, each shorter than \<open>2 ^ 32\<close> bytes, is
  read back as the array of these strings.
\<close>

lemma unat_byte_of_nat: "unat (of_nat k :: byte) = k mod 256"
  by (simp add: unat_of_nat)

lemma bytes_sum4:
  fixes n :: nat
  assumes "n < 4294967296"
  shows "n div 16777216 mod 256 * 16777216 + n div 65536 mod 256 * 65536
           + n div 256 mod 256 * 256 + n mod 256 = n"
proof -
  have low: "n mod 65536 = 256 * (n div 256 mod 256) + n mod 256"
    using mod_mult2_eq [of n 256 256] by simp
  have mid: "n mod 16777216 = 65536 * (n div 65536 mod 256) + n mod 65536"
    using mod_mult2_eq [of n 65536 256] by simp
  from assms have "n div 16777216 < 256"
    by simp
  then have top: "n div 16777216 mod 256 = n div 16777216"
    by simp
  have "n div 16777216 * 16777216 + n mod 16777216 = n"
    by (rule div_mult_mod_eq)
  with low mid top show ?thesis
    by simp
qed

lemma read_head_direct:
  assumes "unat b = major * 32 + k" and "k < 24"
  shows "read_head (b # rest) = Some (major, k, rest)"
  using assms by (simp add: Let_def)

lemma read_head_1byte:
  assumes "unat b = major * 32 + 24"
  shows "read_head (b # x # rest) = Some (major, unat x, rest)"
  using assms by (simp add: Let_def)

lemma read_head_2bytes:
  assumes "unat b = major * 32 + 25"
  shows "read_head (b # x # y # rest) = Some (major, unat x * 256 + unat y, rest)"
  using assms by (simp add: Let_def)

lemma read_head_4bytes:
  assumes "unat b = major * 32 + 26"
  shows "read_head (b # x # y # z # w # rest)
       = Some (major, unat x * 16777216 + unat y * 65536 + unat z * 256 + unat w, rest)"
  using assms by (simp add: Let_def)

lemma read_head_cbor_head:
  assumes "major < 8" and "n < 4294967296"
  shows "read_head (cbor_head major n @ rest) = Some (major, n, rest)"
proof -
  from assms(1) have first: "unat (of_nat (major * 32 + k) :: byte) = major * 32 + k"
    if "k < 32" for k
    using that by (simp only: unat_byte_of_nat) simp
  have low: "unat (of_nat (k mod 256) :: byte) = k mod 256" for k
    by (simp only: unat_byte_of_nat) simp
  consider "n < 24" | "24 \<le> n" "n < 256" | "256 \<le> n" "n < 65536" | "65536 \<le> n"
    by linarith
  then show ?thesis
  proof cases
    case 1
    then have "cbor_head major n = [of_nat (major * 32 + n)]"
      by (simp only: cbor_head_def if_True)
    with 1 show ?thesis
      by (simp only: append_Cons append_Nil read_head_direct [OF first])
  next
    case 2
    define b0 :: byte where "b0 = of_nat (major * 32 + 24)"
    define b1 :: byte where "b1 = of_nat n"
    from 2 have shape: "cbor_head major n = [b0, b1]"
      unfolding b0_def b1_def by (simp only: cbor_head_def) simp
    have "unat b0 = major * 32 + 24"
      unfolding b0_def by (rule first) simp
    then have "read_head (b0 # b1 # rest) = Some (major, unat b1, rest)"
      by (rule read_head_1byte)
    moreover from 2 have "unat b1 = n"
      unfolding b1_def by (simp only: unat_byte_of_nat) simp
    ultimately show ?thesis
      by (simp only: shape append_Cons append_Nil)
  next
    case 3
    define b0 :: byte where "b0 = of_nat (major * 32 + 25)"
    define b1 :: byte where "b1 = of_nat (n div 256)"
    define b2 :: byte where "b2 = of_nat (n mod 256)"
    from 3 have shape: "cbor_head major n = [b0, b1, b2]"
      unfolding b0_def b1_def b2_def by (simp only: cbor_head_def) simp
    have "unat b0 = major * 32 + 25"
      unfolding b0_def by (rule first) simp
    then have "read_head (b0 # b1 # b2 # rest) = Some (major, unat b1 * 256 + unat b2, rest)"
      by (rule read_head_2bytes)
    moreover from 3 have "unat b1 = n div 256"
      unfolding b1_def by (simp only: unat_byte_of_nat) simp
    moreover have "unat b2 = n mod 256"
      unfolding b2_def by (rule low)
    moreover have "n div 256 * 256 + n mod 256 = n"
      by (rule div_mult_mod_eq)
    ultimately show ?thesis
      by (simp only: shape append_Cons append_Nil)
  next
    case 4
    define b0 :: byte where "b0 = of_nat (major * 32 + 26)"
    define b1 :: byte where "b1 = of_nat (n div 16777216 mod 256)"
    define b2 :: byte where "b2 = of_nat (n div 65536 mod 256)"
    define b3 :: byte where "b3 = of_nat (n div 256 mod 256)"
    define b4 :: byte where "b4 = of_nat (n mod 256)"
    from 4 have shape: "cbor_head major n = [b0, b1, b2, b3, b4]"
      unfolding b0_def b1_def b2_def b3_def b4_def by (simp only: cbor_head_def) simp
    have "unat b0 = major * 32 + 26"
      unfolding b0_def by (rule first) simp
    then have "read_head (b0 # b1 # b2 # b3 # b4 # rest)
        = Some (major, unat b1 * 16777216 + unat b2 * 65536 + unat b3 * 256 + unat b4, rest)"
      by (rule read_head_4bytes)
    moreover have "unat b1 = n div 16777216 mod 256" "unat b2 = n div 65536 mod 256"
      "unat b3 = n div 256 mod 256" "unat b4 = n mod 256"
      unfolding b1_def b2_def b3_def b4_def by (rule low)+
    ultimately show ?thesis
      by (simp only: shape append_Cons append_Nil bytes_sum4 [OF assms(2)])
  qed
qed

lemma text_bytes_inverse:
  "map (\<lambda>b. char_of (unat b)) (map (\<lambda>c. of_nat (of_char c) :: byte) s) = s"
  by (induction s) (simp_all add: unat_byte_of_nat)

lemma read_scalar_cbor_text:
  assumes "length s < 4294967296"
  shows "read_scalar (cbor_text s @ rest) = Some (JStr s, rest)"
proof -
  have "read_head (cbor_text s @ rest)
      = Some (3, length s, map (\<lambda>c. of_nat (of_char c)) s @ rest)"
    unfolding cbor_text_def append_assoc
    by (rule read_head_cbor_head) (simp_all add: assms)
  then show ?thesis
    by (simp add: read_scalar_def comp_def unat_byte_of_nat)
qed

declare read_scalars.simps [simp del]

lemma read_scalars_texts:
  assumes "\<forall>x \<in> set xs. length x < 4294967296"
  shows "read_scalars (length xs) (concat (map cbor_text xs) @ rest) = Some (map JStr xs, rest)"
  using assms
proof (induction xs)
  case Nil
  show ?case
    by (simp add: read_scalars.simps)
next
  case (Cons x xs)
  then have "length x < 4294967296"
    by simp
  then have "read_scalar (cbor_text x @ (concat (map cbor_text xs) @ rest))
      = Some (JStr x, concat (map cbor_text xs) @ rest)"
    by (rule read_scalar_cbor_text)
  with Cons show ?case
    by (simp add: read_scalars.simps [of "Suc (length xs)"])
qed

lemma cbor_texts_round_trip:
  assumes "length xs < 4294967296" and "\<forall>x \<in> set xs. length x < 4294967296"
  shows "cborDecode (cborEncode xs) = Some (JArr (map JStr xs))"
proof -
  have "read_head (cbor_head 4 (length xs) @ (concat (map cbor_text xs) @ []))
      = Some (4, length xs, concat (map cbor_text xs) @ [])"
    using _ assms(1) by (rule read_head_cbor_head) simp
  moreover have "read_scalars (length xs) (concat (map cbor_text xs) @ [])
      = Some (map JStr xs, [])"
    using assms(2) by (rule read_scalars_texts)
  ultimately show ?thesis
    by (simp add: cborDecode_def cborEncode_def)
qed

section \<open>Decoder lemmas\<close>

text \<open>
  A prefix without separator is split off again, an input without separator is
  not split, the payload that the encoder builds from a sequence of strings
  deserializes to that sequence, and a successful \<open>decode\<close> found parsers under the
  prefix it split off.
\<close>

lemma split_at_separator:
  assumes "c \<notin> set p"
  shows "splitByFirstOccurrence (p @ c # rest) c = [p, rest]"
proof -
  from assms have before: "\<forall>x \<in> set p. x \<noteq> c"
    by blast
  then have "dropWhile (\<lambda>x. x \<noteq> c) (p @ c # rest) = c # rest"
    by simp
  moreover from before have "takeWhile (\<lambda>x. x \<noteq> c) (p @ c # rest) = p"
    by simp
  ultimately show ?thesis
    by (simp add: splitByFirstOccurrence_def)
qed


lemma envelope_round_trip:
  assumes "length xs < 4294967296" and "\<forall>x \<in> set xs. length x < 4294967296"
  shows "cborDecode (encodedPayloadBuffer (base64url (cborEncode xs))) = Some (JArr (map JStr xs))"
  by (simp only: base64url_round_trip cbor_texts_round_trip [OF assms])

lemma decode_Inr_parsers:
  assumes "decode pr tr s = Inr g"
  obtains p payload where "splitByFirstOccurrence s (CHR ''_'') = [p, payload]"
    and "parsers pr p \<noteq> None"
  using assms
  by (auto simp: decode_def
      split: list.splits option.splits sum.splits prod.splits jsval.splits if_splits
      dest!: getParser_Inr_own)

section \<open>Evaluation on the concrete registries\<close>

text \<open>
  The encoder and the decoder evaluated step by step: the id of the value \<open>abc\<close>,
  the same id with one character changed, payloads that hold a sequence of one and
  of three strings, and the ids of the registries with unusual names.
\<close>

lemmas lookup_eval =
  getPrefix_def getType_def getParser_def lookup_truthy_def record_get_def record_set_def
  parsers_get_def objectPrototype_def objectPrototypeKeys_def memberString_def

lemma test_registerType:
  "registerType newTypeRegistry ''Organization'' ''org'' = Inr testTypeRegistry"
  by (simp add: registerType_def newTypeRegistry_def testTypeRegistry_def lookup_eval)

lemma test_registerParser:
  "registerParser testTypeRegistry newParserRegistry ''org'' ''1.0.0'' StringParser
     = Inr testParserRegistry"
  by (simp add: registerParser_def newParserRegistry_def testTypeRegistry_def
      testParserRegistry_def lookup_eval)

lemma test_reachable: "reachable testTypeRegistry testParserRegistry"
  using reachable.parser_registered [OF reachable.type_registered [OF reachable.start test_registerType] test_registerParser] .

lemma cborEncode_abc: "cborEncode [''abc'', ''1.0.0''] = [130, 99, 97, 98, 99, 101, 49, 46, 48, 46, 48]"
  by (simp add: cborEncode_def cbor_text_def cbor_head_def)

lemma toBase64_abc: "toBase64 [130, 99, 97, 98, 99, 101, 49, 46, 48, 46, 48] = ''gmNhYmNlMS4wLjA=''"
  by (simp add: toBase64_def b64char_def b64chars_def Let_def)

lemma sanitize_abc: "strip_padding (replace_all (CHR ''/'') (CHR ''_'') (replace_all (CHR ''+'') (CHR ''-'') ''gmNhYmNlMS4wLjA='')) = ''gmNhYmNlMS4wLjA''"
  by (simp add: strip_padding_def replace_all_def)

lemma payload_abc: "base64url (cborEncode [''abc'', ''1.0.0'']) = ''gmNhYmNlMS4wLjA''"
  by (simp only: base64url_def Let_def cborEncode_abc toBase64_abc sanitize_abc)

lemma envelope_abc:
  "cborDecode (encodedPayloadBuffer ''gmNhYmNlMS4wLjA'') = Some (JArr [JStr ''abc'', JStr ''1.0.0''])"
  using envelope_round_trip [of "[''abc'', ''1.0.0'']"] by (simp add: payload_abc)

lemma encode_abc:
  "encode testParserRegistry testTypeRegistry
     \<lparr>id_type = ''Organization'', id_version = ''1.0.0'', id_value = JStr ''abc''\<rparr>
   = Inr ''org_gmNhYmNlMS4wLjA''"
  by (simp add: encode_def testTypeRegistry_def testParserRegistry_def StringParser_def
      lookup_eval payload_abc)


















lemma underscore_registerType:
  "registerType newTypeRegistry ''Organization'' ''my_org'' = Inr underscoreTypeRegistry"
  by (simp add: registerType_def newTypeRegistry_def underscoreTypeRegistry_def lookup_eval)

lemma underscore_registerParser:
  "registerParser underscoreTypeRegistry newParserRegistry ''my_org'' ''1.0.0'' StringParser
     = Inr underscoreParserRegistry"
  by (simp add: registerParser_def newParserRegistry_def underscoreTypeRegistry_def
      underscoreParserRegistry_def lookup_eval)

lemma underscore_encode:
  "encode underscoreParserRegistry underscoreTypeRegistry
     \<lparr>id_type = ''Organization'', id_version = ''1.0.0'', id_value = JStr ''abc''\<rparr>
   = Inr ''my_org_gmNhYmNlMS4wLjA''"
  by (simp add: encode_def underscoreTypeRegistry_def
      underscoreParserRegistry_def StringParser_def lookup_eval payload_abc)

lemma underscore_decode:
  "isl (decode underscoreParserRegistry underscoreTypeRegistry ''my_org_gmNhYmNlMS4wLjA'')"
proof (cases "decode underscoreParserRegistry underscoreTypeRegistry ''my_org_gmNhYmNlMS4wLjA''")
  case (Inl e)
  then show ?thesis by simp
next
  case (Inr g)
  then obtain p payload
    where "splitByFirstOccurrence ''my_org_gmNhYmNlMS4wLjA'' (CHR ''_'') = [p, payload]"
      and "parsers underscoreParserRegistry p \<noteq> None"
    by (rule decode_Inr_parsers)
  then show ?thesis
    by (auto simp: splitByFirstOccurrence_def underscoreParserRegistry_def split: if_splits)
qed

lemma emptyPrefix_registerType:
  "registerType newTypeRegistry ''T'' '''' = Inr emptyPrefixTypeRegistry"
  by (simp add: registerType_def newTypeRegistry_def emptyPrefixTypeRegistry_def lookup_eval)

lemma emptyPrefix_registerParser:
  "registerParser emptyPrefixTypeRegistry newParserRegistry '''' ''1.0.0'' StringParser
     = Inr emptyPrefixParserRegistry"
  by (simp add: registerParser_def newParserRegistry_def emptyPrefixTypeRegistry_def
      emptyPrefixParserRegistry_def lookup_eval)

lemma emptyName_registerType:
  "registerType newTypeRegistry '''' ''p'' = Inr emptyNameTypeRegistry"
  by (simp add: registerType_def newTypeRegistry_def emptyNameTypeRegistry_def lookup_eval)

lemma sharedPrefix_registerType:
  "registerType emptyNameTypeRegistry ''B'' ''p'' = Inr sharedPrefixTypeRegistry"
  by (auto simp: registerType_def emptyNameTypeRegistry_def sharedPrefixTypeRegistry_def
      lookup_eval)

lemma sharedPrefix_registerParser:
  "registerParser sharedPrefixTypeRegistry newParserRegistry ''p'' ''1.0.0'' StringParser
     = Inr sharedPrefixParserRegistry"
  by (simp add: registerParser_def newParserRegistry_def sharedPrefixTypeRegistry_def
      sharedPrefixParserRegistry_def lookup_eval)

lemma sharedPrefix_encode:
  "encode sharedPrefixParserRegistry sharedPrefixTypeRegistry
     \<lparr>id_type = '''', id_version = ''1.0.0'', id_value = JStr ''abc''\<rparr>
   = Inr ''p_gmNhYmNlMS4wLjA''"
  by (simp add: encode_def sharedPrefixTypeRegistry_def
      sharedPrefixParserRegistry_def StringParser_def lookup_eval payload_abc)

lemma sharedPrefix_decode:
  "decode sharedPrefixParserRegistry sharedPrefixTypeRegistry ''p_gmNhYmNlMS4wLjA''
   = Inr \<lparr>id_type = ''B'', id_version = ''1.0.0'', id_value = JStr ''abc''\<rparr>"
  by (simp add: decode_def splitByFirstOccurrence_def envelope_abc destructure2_def element_at_def
      sharedPrefixTypeRegistry_def sharedPrefixParserRegistry_def
      StringParser_def lookup_eval)

lemma weird_registerType:
  "registerType newTypeRegistry ''Weird'' ''[object Object]'' = Inr weirdTypeRegistry"
  by (simp add: registerType_def newTypeRegistry_def weirdTypeRegistry_def lookup_eval)

lemma weird_registerParser:
  "registerParser weirdTypeRegistry newParserRegistry ''[object Object]'' ''1.0.0'' StringParser
     = Inr weirdParserRegistry"
  by (simp add: registerParser_def newParserRegistry_def weirdTypeRegistry_def
      weirdParserRegistry_def lookup_eval)

lemma weird_encode:
  "encode weirdParserRegistry weirdTypeRegistry
     \<lparr>id_type = ''__proto__'', id_version = ''1.0.0'', id_value = JStr ''abc''\<rparr>
   = Inr ''[object Object]_gmNhYmNlMS4wLjA''"
  by (simp add: encode_def weirdTypeRegistry_def weirdParserRegistry_def StringParser_def
      lookup_eval payload_abc)

section \<open>Behaviour on keys that are not inherited\<close>

text \<open>
  What the registries and the encoder do where the truthiness tests and the
  inherited members of the dictionaries do not interfere.
\<close>

lemma registerType_refuses_truthy:
  "lookup_truthy (typeMap r) t \<or> lookup_truthy (prefixMap r) p \<Longrightarrow>
     registerType r t p = Inl DuplicateRegistration"
  by (simp add: registerType_def)

lemma registerParser_unknown:
  "getType tr t = None \<Longrightarrow> registerParser tr pr t v parser = Inl UnknownType"
  by (simp add: registerParser_def getType_def lookup_truthy_def)

lemma registerParser_stores:
  assumes "getType tr t = Some name" and "name \<noteq> []" and "objectPrototype t = None"
  shows "\<exists>pr'. registerParser tr pr t v parser = Inr pr'
           \<and> stored pr' t v = Some parser
           \<and> (\<forall>t' v'. (t', v') \<noteq> (t, v) \<longrightarrow> stored pr' t' v' = stored pr t' v')"
  using assms
  by (auto simp: registerParser_def getType_def lookup_truthy_def stored_def parsers_get_own
      split: option.splits)

lemma encode_rejects_falsy:
  "getPrefix tr (id_type gid) = Some p \<Longrightarrow> p \<noteq> [] \<Longrightarrow> \<not> truthy (id_value gid) \<Longrightarrow>
     encode pr tr gid = Inl NullValue"
  by (simp add: encode_def)

lemma getParser_own_outcomes:
  assumes "reachable tr pr" and "objectPrototype t = None"
  shows "((\<forall>v. stored pr t v = None) \<longrightarrow> getParser pr t (JStr ver) = Inl UnknownType)
       \<and> ((\<exists>v. stored pr t v \<noteq> None) \<and> stored pr t ver = None
            \<longrightarrow> getParser pr t (JStr ver) = Inl UnknownVersion)
       \<and> (\<forall>parser. stored pr t ver = Some parser \<longrightarrow> getParser pr t (JStr ver) = Inr parser)"
proof (cases "parsers pr t")
  case None
  with assms(2) show ?thesis by (simp add: stored_def getParser_def parsers_get_own)
next
  case (Some m)
  with assms(1) obtain v parser where "m v = Some parser"
    using reachable_versions_nonempty by blast
  with Some have "stored pr t v \<noteq> None" by (simp add: stored_def)
  with Some assms(2) show ?thesis
    by (auto simp: stored_def getParser_def parsers_get_own split: option.splits)
qed

lemma encode_own_unregistered:
  "typeMap tr (id_type gid) = None \<Longrightarrow> objectPrototype (id_type gid) = None \<Longrightarrow>
     encode pr tr gid = Inl UnregisteredType"
  by (simp add: encode_def getPrefix_def record_get_own)

lemma encode_own_prefix:
  "encode pr tr gid = Inr s \<Longrightarrow> objectPrototype (id_type gid) = None \<Longrightarrow>
     \<exists>p. typeMap tr (id_type gid) = Some p \<and> prefix (p @ ''_'') s"
  by (auto simp: encode_def getPrefix_def record_get_own Let_def
      split: option.splits if_splits sum.splits jsval.splits)

section \<open>Claims\<close>

text \<open>
  C1 (as amended). In every registry state reached by the registration calls, for
  every type with a non-empty name registered under a non-empty prefix that does
  not contain \<open>_\<close>, every version with a parser under that prefix, and every
  truthy value \<open>x\<close> that the parser formats to a string which it parses back to
  \<open>x\<close> (the formatted string and the version shorter than \<open>2 ^ 32\<close> bytes, as
  every JavaScript string is), \<open>encode\<close> succeeds and \<open>decode\<close> of its result is
  the \<open>GlobalId\<close> that was encoded.
\<close>

theorem encode_decode_round_trip:
  assumes "reachable tr pr"
    and "typeMap tr t = Some p" and "t \<noteq> []" and "p \<noteq> []" and "CHR ''_'' \<notin> set p"
    and "getParser pr p (JStr v) = Inr parser"
    and "format parser x = Some (JStr f)" and "parse parser (JStr f) = Some x"
    and "truthy x"
    and "length f < 4294967296" and "length v < 4294967296"
  shows "\<exists>s. encode pr tr \<lparr>id_type = t, id_version = v, id_value = x\<rparr> = Inr s
            \<and> decode pr tr s = Inr \<lparr>id_type = t, id_version = v, id_value = x\<rparr>"
proof -
  define s where "s = p @ ''_'' @ base64url (cborEncode [f, v])"
  have "getPrefix tr t = Some p"
    using assms(1,2) by (rule reachable_getPrefix)
  with assms(4,6,7,9)
  have encoded: "encode pr tr \<lparr>id_type = t, id_version = v, id_value = x\<rparr> = Inr s"
    by (simp add: encode_def s_def)
  from assms(5)
  have "splitByFirstOccurrence s (CHR ''_'') = [p, base64url (cborEncode [f, v])]"
    unfolding s_def by (simp add: split_at_separator)
  moreover have "cborDecode (encodedPayloadBuffer (base64url (cborEncode [f, v])))
      = Some (JArr (map JStr [f, v]))"
    using assms(10,11) by (intro envelope_round_trip) simp_all
  moreover have "prefixMap tr p = Some t"
    using assms(1,2,3,4) by (rule reachable_prefix_of_type)
  with assms(1) have "getType tr p = Some t"
    by (rule reachable_getType)
  ultimately have "decode pr tr s = Inr \<lparr>id_type = t, id_version = v, id_value = x\<rparr>"
    using assms(3,6,8) by (simp add: decode_def destructure2_def element_at_def)
  with encoded show ?thesis
    by blast
qed

theorem encode_decode_round_trip_witness:
  "encode testParserRegistry testTypeRegistry
     \<lparr>id_type = ''Organization'', id_version = ''1.0.0'', id_value = JStr ''abc''\<rparr>
     = Inr ''org_gmNhYmNlMS4wLjA''
   \<and> decode testParserRegistry testTypeRegistry ''org_gmNhYmNlMS4wLjA''
     = Inr \<lparr>id_type = ''Organization'', id_version = ''1.0.0'', id_value = JStr ''abc''\<rparr>"
proof -
  have "typeMap testTypeRegistry ''Organization'' = Some ''org''"
    by (simp add: testTypeRegistry_def)
  moreover have "getParser testParserRegistry ''org'' (JStr ''1.0.0'') = Inr StringParser"
    by (simp add: testParserRegistry_def lookup_eval)
  moreover have "format StringParser (JStr ''abc'') = Some (JStr ''abc'')"
    and "parse StringParser (JStr ''abc'') = Some (JStr ''abc'')"
    by (simp_all add: StringParser_def)
  ultimately obtain s
    where "encode testParserRegistry testTypeRegistry
             \<lparr>id_type = ''Organization'', id_version = ''1.0.0'', id_value = JStr ''abc''\<rparr> = Inr s"
      and "decode testParserRegistry testTypeRegistry s
             = Inr \<lparr>id_type = ''Organization'', id_version = ''1.0.0'', id_value = JStr ''abc''\<rparr>"
    using encode_decode_round_trip [OF test_reachable, of "''Organization''" "''org''" "''1.0.0''" StringParser
        "JStr ''abc''" "''abc''"]
    by auto
  then show ?thesis
    by (simp add: encode_abc)
qed

text \<open>
  The claim as stated fails at four inputs. The shipped \<open>StringParser\<close> accepts
  the empty string, which is not null, and \<open>encode\<close> rejects it. A type registered
  under the prefix \<open>my_org\<close> encodes, and the result does not decode. A type
  registered under the empty prefix does not encode. The type with the empty name,
  whose prefix a second registration took over, decodes to the other type.
\<close>

theorem encode_decode_round_trip_counterexample:
  "(format StringParser (JStr '''') = Some (JStr '''')
     \<and> parse StringParser (JStr '''') = Some (JStr '''')
     \<and> getPrefix testTypeRegistry ''Organization'' = Some ''org''
     \<and> getParser testParserRegistry ''org'' (JStr ''1.0.0'') = Inr StringParser
     \<and> encode testParserRegistry testTypeRegistry
          \<lparr>id_type = ''Organization'', id_version = ''1.0.0'', id_value = JStr ''''\<rparr>
        = Inl NullValue)
   \<and> (registerType newTypeRegistry ''Organization'' ''my_org'' = Inr underscoreTypeRegistry
     \<and> registerParser underscoreTypeRegistry newParserRegistry ''my_org'' ''1.0.0'' StringParser
        = Inr underscoreParserRegistry
     \<and> encode underscoreParserRegistry underscoreTypeRegistry
          \<lparr>id_type = ''Organization'', id_version = ''1.0.0'', id_value = JStr ''abc''\<rparr>
        = Inr ''my_org_gmNhYmNlMS4wLjA''
     \<and> isl (decode underscoreParserRegistry underscoreTypeRegistry ''my_org_gmNhYmNlMS4wLjA''))
   \<and> (registerType newTypeRegistry ''T'' '''' = Inr emptyPrefixTypeRegistry
     \<and> registerParser emptyPrefixTypeRegistry newParserRegistry '''' ''1.0.0'' StringParser
        = Inr emptyPrefixParserRegistry
     \<and> encode emptyPrefixParserRegistry emptyPrefixTypeRegistry
          \<lparr>id_type = ''T'', id_version = ''1.0.0'', id_value = JStr ''abc''\<rparr>
        = Inl UnregisteredType)
   \<and> (registerType newTypeRegistry '''' ''p'' = Inr emptyNameTypeRegistry
     \<and> registerType emptyNameTypeRegistry ''B'' ''p'' = Inr sharedPrefixTypeRegistry
     \<and> registerParser sharedPrefixTypeRegistry newParserRegistry ''p'' ''1.0.0'' StringParser
        = Inr sharedPrefixParserRegistry
     \<and> encode sharedPrefixParserRegistry sharedPrefixTypeRegistry
          \<lparr>id_type = '''', id_version = ''1.0.0'', id_value = JStr ''abc''\<rparr>
        = Inr ''p_gmNhYmNlMS4wLjA''
     \<and> decode sharedPrefixParserRegistry sharedPrefixTypeRegistry ''p_gmNhYmNlMS4wLjA''
        = Inr \<lparr>id_type = ''B'', id_version = ''1.0.0'', id_value = JStr ''abc''\<rparr>)"
proof -
  have string_parser: "format StringParser (JStr '''') = Some (JStr '''')"
    "parse StringParser (JStr '''') = Some (JStr '''')"
    by (simp_all add: StringParser_def)
  have registered: "getPrefix testTypeRegistry ''Organization'' = Some ''org''"
    "getParser testParserRegistry ''org'' (JStr ''1.0.0'') = Inr StringParser"
    by (simp_all add: testTypeRegistry_def testParserRegistry_def lookup_eval)
  have falsy: "encode testParserRegistry testTypeRegistry
          \<lparr>id_type = ''Organization'', id_version = ''1.0.0'', id_value = JStr ''''\<rparr>
        = Inl NullValue"
    by (simp add: encode_def testTypeRegistry_def lookup_eval)
  have empty_prefix: "encode emptyPrefixParserRegistry emptyPrefixTypeRegistry
          \<lparr>id_type = ''T'', id_version = ''1.0.0'', id_value = JStr ''abc''\<rparr>
        = Inl UnregisteredType"
    by (simp add: encode_def emptyPrefixTypeRegistry_def lookup_eval)
  note facts = string_parser registered falsy empty_prefix
    underscore_registerType underscore_registerParser underscore_encode underscore_decode
    emptyPrefix_registerType emptyPrefix_registerParser emptyName_registerType
    sharedPrefix_registerType sharedPrefix_registerParser sharedPrefix_encode sharedPrefix_decode
  show ?thesis
    by (intro conjI) (rule facts)+
qed




text \<open>
  C3. \<open>registerType\<close> is to refuse a type that is already mapped and a prefix that is
  already mapped, so that types and prefixes stay in one-to-one correspondence. Its
  guard tests the stored strings by truthiness and does not see an entry whose
  stored string is empty. After \<open>registerType("", "p")\<close> the call
  \<open>registerType("B", "p")\<close> succeeds although \<open>p\<close> is mapped, and two types share
  the prefix \<open>p\<close>. After \<open>registerType("T", "")\<close> the call \<open>registerType("T", "t")\<close>
  succeeds although \<open>T\<close> is mapped, and two prefixes name the type \<open>T\<close>.
\<close>

theorem registerType_accepts_duplicate:
  "registerType newTypeRegistry '''' ''p'' = Inr emptyNameTypeRegistry
   \<and> getType emptyNameTypeRegistry ''p'' = Some ''''
   \<and> registerType emptyNameTypeRegistry ''B'' ''p'' = Inr sharedPrefixTypeRegistry
   \<and> getPrefix sharedPrefixTypeRegistry '''' = Some ''p''
   \<and> getPrefix sharedPrefixTypeRegistry ''B'' = Some ''p''
   \<and> registerType newTypeRegistry ''T'' '''' = Inr emptyPrefixTypeRegistry
   \<and> getPrefix emptyPrefixTypeRegistry ''T'' = Some ''''
   \<and> registerType emptyPrefixTypeRegistry ''T'' ''t''
       = Inr \<lparr> typeMap = [''T'' \<mapsto> ''t''], prefixMap = ['''' \<mapsto> ''T'', ''t'' \<mapsto> ''T''] \<rparr>"
proof -
  have "getType emptyNameTypeRegistry ''p'' = Some ''''"
    by (simp add: emptyNameTypeRegistry_def lookup_eval)
  moreover have "getPrefix sharedPrefixTypeRegistry '''' = Some ''p''"
    and "getPrefix sharedPrefixTypeRegistry ''B'' = Some ''p''"
    by (simp_all add: sharedPrefixTypeRegistry_def lookup_eval)
  moreover have "getPrefix emptyPrefixTypeRegistry ''T'' = Some ''''"
    by (simp add: emptyPrefixTypeRegistry_def lookup_eval)
  moreover have "registerType emptyPrefixTypeRegistry ''T'' ''t''
       = Inr \<lparr> typeMap = [''T'' \<mapsto> ''t''], prefixMap = ['''' \<mapsto> ''T'', ''t'' \<mapsto> ''T''] \<rparr>"
    by (simp add: registerType_def emptyPrefixTypeRegistry_def lookup_eval)
  ultimately show ?thesis
    using emptyName_registerType sharedPrefix_registerType emptyPrefix_registerType by simp
qed

text \<open>
  C4. \<open>registerParser(type, version, parser)\<close> is to fail with \<open>UnknownType\<close> exactly
  when \<open>type\<close> is not present in the type registry. After
  \<open>registerType("", "p")\<close> the registry holds an entry for \<open>p\<close>, and
  \<open>registerParser("p", "1.0.0", parser)\<close> still fails with \<open>UnknownType\<close>: the entry's
  type name is the empty string, which the truthiness test takes for absent.
\<close>

theorem registerParser_rejects_present_prefix:
  "registerType newTypeRegistry '''' ''p'' = Inr emptyNameTypeRegistry
   \<and> getType emptyNameTypeRegistry ''p'' = Some ''''
   \<and> registerParser emptyNameTypeRegistry newParserRegistry ''p'' ''1.0.0'' StringParser
       = Inl UnknownType"
proof -
  have "getType emptyNameTypeRegistry ''p'' = Some ''''"
    by (simp add: emptyNameTypeRegistry_def lookup_eval)
  moreover have "registerParser emptyNameTypeRegistry newParserRegistry ''p'' ''1.0.0'' StringParser
       = Inl UnknownType"
    by (simp add: registerParser_def emptyNameTypeRegistry_def lookup_eval)
  ultimately show ?thesis
    using emptyName_registerType by simp
qed

text \<open>
  C5. \<open>getParser(type, version)\<close> is to fail with \<open>UnknownType\<close> when no parser is
  stored for \<open>type\<close> at all. The dictionary of parsers is a plain object, so the
  lookup under a name that \<open>Object.prototype\<close> defines finds the inherited member
  in place of a \<open>Map\<close>. In the fresh registry, and in the registry of the
  repository's tests, nothing is stored under \<open>constructor\<close> or \<open>toString\<close>, and
  \<open>getParser\<close> fails there with the \<open>TypeError\<close> of calling \<open>get\<close> on the member.
\<close>

theorem getParser_inherited_member:
  "parsers newParserRegistry ''constructor'' = None
   \<and> getParser newParserRegistry ''constructor'' (JStr ''1.0.0'') = Inl TypeError
   \<and> registerType newTypeRegistry ''Organization'' ''org'' = Inr testTypeRegistry
   \<and> registerParser testTypeRegistry newParserRegistry ''org'' ''1.0.0'' StringParser
       = Inr testParserRegistry
   \<and> parsers testParserRegistry ''toString'' = None
   \<and> getParser testParserRegistry ''toString'' (JStr ''1.0.0'') = Inl TypeError"
proof -
  have "parsers newParserRegistry ''constructor'' = None"
    and "getParser newParserRegistry ''constructor'' (JStr ''1.0.0'') = Inl TypeError"
    by (simp_all add: newParserRegistry_def lookup_eval)
  moreover have "parsers testParserRegistry ''toString'' = None"
    and "getParser testParserRegistry ''toString'' (JStr ''1.0.0'') = Inl TypeError"
    by (simp_all add: testParserRegistry_def lookup_eval)
  ultimately show ?thesis
    using test_registerType test_registerParser by simp
qed

text \<open>
  C6. Encoding a \<open>GlobalId\<close> whose type has no prefix in the type registry is to
  fail with \<open>UnregisteredType\<close> before anything else is looked at. The dictionary
  of types is a plain object, so \<open>getPrefix("constructor")\<close> finds the member
  inherited from \<open>Object.prototype\<close>, which is truthy. In the fresh registries, where
  no type is registered, encoding a \<open>GlobalId\<close> of type \<open>constructor\<close> passes the
  test of the prefix: with the value \<open>null\<close> it fails with \<open>NullValue\<close>, and with the
  value \<open>abc\<close> it fails in the parser lookup with \<open>UnknownType\<close>.
\<close>

theorem encode_inherited_type:
  "typeMap newTypeRegistry ''constructor'' = None
   \<and> encode newParserRegistry newTypeRegistry
        \<lparr>id_type = ''constructor'', id_version = ''1.0.0'', id_value = JNull\<rparr> = Inl NullValue
   \<and> encode newParserRegistry newTypeRegistry
        \<lparr>id_type = ''constructor'', id_version = ''1.0.0'', id_value = JStr ''abc''\<rparr>
       = Inl UnknownType"
  by (simp add: encode_def newTypeRegistry_def newParserRegistry_def lookup_eval)

text \<open>
  C7. Encoding a \<open>GlobalId\<close> of a registered type whose value is \<open>null\<close> or absent is
  to fail with \<open>NullValue\<close>. For the type \<open>T\<close> registered under the empty prefix the
  encoder fails with \<open>UnregisteredType\<close> instead: the truthiness test of the prefix
  takes the registered empty string for absent, and the value is never looked at.
\<close>

theorem encode_null_under_empty_prefix:
  "registerType newTypeRegistry ''T'' '''' = Inr emptyPrefixTypeRegistry
   \<and> getPrefix emptyPrefixTypeRegistry ''T'' = Some ''''
   \<and> encode emptyPrefixParserRegistry emptyPrefixTypeRegistry
        \<lparr>id_type = ''T'', id_version = ''1.0.0'', id_value = JNull\<rparr> = Inl UnregisteredType
   \<and> encode emptyPrefixParserRegistry emptyPrefixTypeRegistry
        \<lparr>id_type = ''T'', id_version = ''1.0.0'', id_value = JUndefined\<rparr> = Inl UnregisteredType"
  by (simp add: emptyPrefix_registerType)
    (simp add: encode_def emptyPrefixTypeRegistry_def lookup_eval)

text \<open>
  C8. Whenever \<open>encode\<close> succeeds, the string it returns is to start with the prefix
  registered for the type of the \<open>GlobalId\<close>. The dictionary of types is a plain
  object, so \<open>getPrefix("__proto__")\<close> finds \<open>Object.prototype\<close>, which as a string
  is \<open>[object Object]\<close>. After \<open>registerType("Weird", "[object Object]")\<close> and
  \<open>registerParser("[object Object]", "1.0.0", new StringParser())\<close> no prefix is
  registered for the type \<open>__proto__\<close>, and encoding a \<open>GlobalId\<close> of that type
  succeeds with a string that starts with the prefix of the type \<open>Weird\<close>.
\<close>

theorem encode_inherited_prefix:
  "registerType newTypeRegistry ''Weird'' ''[object Object]'' = Inr weirdTypeRegistry
   \<and> registerParser weirdTypeRegistry newParserRegistry ''[object Object]'' ''1.0.0'' StringParser
       = Inr weirdParserRegistry
   \<and> typeMap weirdTypeRegistry ''__proto__'' = None
   \<and> encode weirdParserRegistry weirdTypeRegistry
        \<lparr>id_type = ''__proto__'', id_version = ''1.0.0'', id_value = JStr ''abc''\<rparr>
       = Inr ''[object Object]_gmNhYmNlMS4wLjA''"
proof -
  have "typeMap weirdTypeRegistry ''__proto__'' = None"
    by (simp add: weirdTypeRegistry_def)
  then show ?thesis
    using weird_registerType weird_registerParser weird_encode by simp
qed

text \<open>
  C9. In every registry state reached by successful \<open>registerType\<close> and
  \<open>registerParser\<close> calls, a prefix for which \<open>getParser\<close> succeeds has a type in the
  type registry, and that type passes the decoder's final test; so \<open>decode\<close> never
  fails with \<open>UnregisteredType\<close> there.
\<close>

theorem decode_recheck_unreachable:
  assumes "reachable tr pr"
  shows "(\<forall>p v parser. getParser pr p v = Inr parser
            \<longrightarrow> (\<exists>t. getType tr p = Some t \<and> truthy (JStr t)))
       \<and> decode pr tr s \<noteq> Inl UnregisteredType"
proof
  show known: "\<forall>p v parser. getParser pr p v = Inr parser
                 \<longrightarrow> (\<exists>t. getType tr p = Some t \<and> truthy (JStr t))"
  proof (intro allI impI)
    fix p v parser
    assume "getParser pr p v = Inr parser"
    then obtain m where "parsers pr p = Some m"
      by (auto dest: getParser_Inr_own)
    with assms have "lookup_truthy (prefixMap tr) p"
      by (rule reachable_parsers_known)
    then show "\<exists>t. getType tr p = Some t \<and> truthy (JStr t)"
      by (auto simp: lookup_truthy_def getType_def split: option.splits)
  qed
  show "decode pr tr s \<noteq> Inl UnregisteredType"
  proof
    assume "decode pr tr s = Inl UnregisteredType"
    then obtain p v parser where "getParser pr p v = Inr parser"
      and "getType tr p = None \<or> getType tr p = Some []"
      by (rule decode_UnregisteredTypeD)
    with known show False by fastforce
  qed
qed

theorem decode_recheck_unreachable_witness:
  "reachable testTypeRegistry testParserRegistry
   \<and> getParser testParserRegistry ''org'' (JStr ''1.0.0'') = Inr StringParser
   \<and> (\<exists>t. getType testTypeRegistry ''org'' = Some t \<and> truthy (JStr t))
   \<and> decode testParserRegistry testTypeRegistry ''org_gmNiYmNlMS4wLjA'' \<noteq> Inl UnregisteredType"
proof -
  have found: "getParser testParserRegistry ''org'' (JStr ''1.0.0'') = Inr StringParser"
    by (simp add: testParserRegistry_def lookup_eval)
  note fact = decode_recheck_unreachable [OF test_reachable, of "''org_gmNiYmNlMS4wLjA''"]
  from fact found have "\<exists>t. getType testTypeRegistry ''org'' = Some t \<and> truthy (JStr t)"
    by blast
  with fact found test_reachable show ?thesis
    by blast
qed

text \<open>
  C10. For every registered type, encoding a falsy value (\<open>0\<close>, the empty string,
  \<open>false\<close>, \<open>NaN\<close>) is to fail with \<open>NullValue\<close>. For the type \<open>T\<close> registered under
  the empty prefix each of these values fails with \<open>UnregisteredType\<close> instead: the
  truthiness test of the prefix takes the registered empty string for absent, and
  the value is never looked at.
\<close>

theorem encode_falsy_under_empty_prefix:
  "getPrefix emptyPrefixTypeRegistry ''T'' = Some ''''
   \<and> encode emptyPrefixParserRegistry emptyPrefixTypeRegistry
        \<lparr>id_type = ''T'', id_version = ''1.0.0'', id_value = JNum 0\<rparr> = Inl UnregisteredType
   \<and> encode emptyPrefixParserRegistry emptyPrefixTypeRegistry
        \<lparr>id_type = ''T'', id_version = ''1.0.0'', id_value = JStr ''''\<rparr> = Inl UnregisteredType
   \<and> encode emptyPrefixParserRegistry emptyPrefixTypeRegistry
        \<lparr>id_type = ''T'', id_version = ''1.0.0'', id_value = JBool False\<rparr> = Inl UnregisteredType
   \<and> encode emptyPrefixParserRegistry emptyPrefixTypeRegistry
        \<lparr>id_type = ''T'', id_version = ''1.0.0'', id_value = JNaN\<rparr> = Inl UnregisteredType"
  by (simp add: encode_def emptyPrefixTypeRegistry_def lookup_eval)

end
